theory Spec2Isabelle
  imports Complex_Main "HOL-Library.Sublist" "HOL-Library.Multiset"
begin

section \<open>Python values used by the two scripts\<close>

text \<open>
  A Python \<open>str\<close> is modelled by the list of the bytes of its UTF-8 encoding, so an ASCII
  character is one \<open>char\<close>. Splitting at \<open>/\<close> and \<open>#\<close>, joining, substring tests against
  ASCII keywords and \<open>endswith\<close> are exact on that representation; \<open>lower\<close> and \<open>strip\<close>
  are the ASCII parts of the Python methods.

  Every operation of the source that can raise (indexing, \<open>list.pop\<close>, subscripting with
  \<open>None\<close>) returns a sum, \<open>Inl\<close> carrying the exception.
\<close>

datatype py_error = IndexError | TypeError | KeyError | Raised string

text \<open>\<open>s.split(c)\<close>: every occurrence of the separator cuts, empty pieces are kept.\<close>

fun split_on :: "char \<Rightarrow> string \<Rightarrow> string list" where
  "split_on c [] = [[]]"
| "split_on c (x # xs) =
     (if x = c then [] # split_on c xs
      else (case split_on c xs of [] \<Rightarrow> [[x]] | s # ss \<Rightarrow> (x # s) # ss))"

text \<open>\<open>s.split(c, 1)\<close>: at most one cut, at the first occurrence.\<close>

definition split_once :: "char \<Rightarrow> string \<Rightarrow> string list" where
  "split_once c s =
     (if c \<in> set s then [takeWhile (\<lambda>x. x \<noteq> c) s, tl (dropWhile (\<lambda>x. x \<noteq> c) s)] else [s])"

text \<open>\<open>xs[i]\<close> for a non-negative index.\<close>

definition py_index :: "'a list \<Rightarrow> nat \<Rightarrow> py_error + 'a" where
  "py_index xs i = (if i < length xs then Inr (xs ! i) else Inl IndexError)"

text \<open>\<open>xs.pop()\<close>, returning the list that is left.\<close>

definition py_pop :: "'a list \<Rightarrow> py_error + 'a list" where
  "py_pop xs = (if xs = [] then Inl IndexError else Inr (butlast xs))"

text \<open>\<open>sep.join(xs)\<close>.\<close>

fun join :: "string \<Rightarrow> string list \<Rightarrow> string" where
  "join sep [] = []"
| "join sep [x] = x"
| "join sep (x # y # ys) = x @ sep @ join sep (y # ys)"

text \<open>\<open>k in t\<close> on strings: \<open>k\<close> occurs in \<open>t\<close> as a contiguous block.\<close>

fun starts_with :: "string \<Rightarrow> string \<Rightarrow> bool" where
  "starts_with [] t = True"
| "starts_with (k # ks) [] = False"
| "starts_with (k # ks) (c # cs) = (k = c \<and> starts_with ks cs)"

fun py_in :: "string \<Rightarrow> string \<Rightarrow> bool" where
  "py_in k [] = (k = [])"
| "py_in k (c # cs) = (starts_with k (c # cs) \<or> py_in k cs)"

definition ends_with :: "string \<Rightarrow> string \<Rightarrow> bool" where
  "ends_with t k = starts_with (rev k) (rev t)"

definition lower_char :: "char \<Rightarrow> char" where
  "lower_char c =
     (case map_of (zip ''ABCDEFGHIJKLMNOPQRSTUVWXYZ'' ''abcdefghijklmnopqrstuvwxyz'') c of
        None \<Rightarrow> c | Some d \<Rightarrow> d)"

definition lower :: "string \<Rightarrow> string" where
  "lower s = map lower_char s"

definition is_space :: "char \<Rightarrow> bool" where
  "is_space c = (c \<in> set [CHR 0x09, CHR 0x0A, CHR 0x0B, CHR 0x0C, CHR 0x0D,
                           CHR 0x1C, CHR 0x1D, CHR 0x1E, CHR 0x1F, CHR 0x20])"

definition strip :: "string \<Rightarrow> string" where
  "strip s = rev (dropWhile is_space (rev (dropWhile is_space s)))"

section \<open>urllib.parse.unquote\<close>

definition hex_val :: "char \<Rightarrow> nat option" where
  "hex_val c = map_of (zip ''0123456789abcdefABCDEF''
       [0, 1, 2, 3, 4, 5, 6, 7, 8, 9, 10, 11, 12, 13, 14, 15, 10, 11, 12, 13, 14, 15]) c"

text \<open>
  \<open>unquote_to_bytes\<close>: a \<open>%\<close> followed by two hexadecimal digits becomes the byte they
  write; any other \<open>%\<close> stays as it is.
\<close>

fun unquote_to_bytes :: "string \<Rightarrow> nat list" where
  "unquote_to_bytes [] = []"
| "unquote_to_bytes (c # cs) =
     (if c = CHR ''%'' then
        (case cs of
           h1 # h2 # rest \<Rightarrow>
             (case (hex_val h1, hex_val h2) of
                (Some a, Some b) \<Rightarrow> (16 * a + b) # unquote_to_bytes rest
              | _ \<Rightarrow> of_char c # unquote_to_bytes cs)
         | _ \<Rightarrow> of_char c # unquote_to_bytes cs)
      else of_char c # unquote_to_bytes cs)"

definition is_cont :: "nat \<Rightarrow> bool" where
  "is_cont b = (0x80 \<le> b \<and> b \<le> 0xBF)"

definition ok_second3 :: "nat \<Rightarrow> nat \<Rightarrow> bool" where
  "ok_second3 b c = (is_cont c \<and> \<not> (b = 0xE0 \<and> c < 0xA0) \<and> \<not> (b = 0xED \<and> 0xA0 \<le> c))"

definition ok_second4 :: "nat \<Rightarrow> nat \<Rightarrow> bool" where
  "ok_second4 b c = (is_cont c \<and> \<not> (b = 0xF0 \<and> c < 0x90) \<and> \<not> (b = 0xF4 \<and> 0x90 \<le> c))"

definition replacement :: "nat list" where
  "replacement = [0xEF, 0xBF, 0xBD]"

text \<open>
  \<open>bytes.decode('utf-8', 'replace')\<close>, the result written in UTF-8 again: a well-formed
  sequence is kept, and each ill-formed piece (a stray byte, or a lead byte with the
  continuation bytes that fit it) becomes one U+FFFD.
\<close>

fun utf8_replace :: "nat list \<Rightarrow> nat list" where
  "utf8_replace [] = []"
| "utf8_replace (b # bs) =
     (if b < 0x80 then b # utf8_replace bs
      else if b < 0xC2 then replacement @ utf8_replace bs
      else if b < 0xE0 then
        (case bs of
           [] \<Rightarrow> replacement
         | c # cs \<Rightarrow> if is_cont c then b # c # utf8_replace cs
                     else replacement @ utf8_replace bs)
      else if b < 0xF0 then
        (case bs of
           [] \<Rightarrow> replacement
         | c # cs \<Rightarrow>
             if \<not> ok_second3 b c then replacement @ utf8_replace bs
             else (case cs of
                     [] \<Rightarrow> replacement
                   | d # ds \<Rightarrow> if is_cont d then b # c # d # utf8_replace ds
                               else replacement @ utf8_replace cs))
      else if b < 0xF5 then
        (case bs of
           [] \<Rightarrow> replacement
         | c # cs \<Rightarrow>
             if \<not> ok_second4 b c then replacement @ utf8_replace bs
             else (case cs of
                     [] \<Rightarrow> replacement
                   | d # ds \<Rightarrow>
                       if \<not> is_cont d then replacement @ utf8_replace cs
                       else (case ds of
                               [] \<Rightarrow> replacement
                             | e # es \<Rightarrow> if is_cont e then b # c # d # e # utf8_replace es
                                         else replacement @ utf8_replace ds)))
      else replacement @ utf8_replace bs)"

definition decode_run :: "string \<Rightarrow> string" where
  "decode_run r = map char_of (utf8_replace (unquote_to_bytes r))"

text \<open>
  \<open>unquote\<close> cuts the string into maximal runs of ASCII characters, decodes each run,
  and leaves the characters between the runs alone. \<open>run\<close> is the current run, reversed.
\<close>

fun unquote_runs :: "string \<Rightarrow> string \<Rightarrow> string" where
  "unquote_runs run [] = decode_run (rev run)"
| "unquote_runs run (c # cs) =
     (if (of_char c :: nat) < 0x80 then unquote_runs (c # run) cs
      else decode_run (rev run) @ c # unquote_runs [] cs)"

definition unquote :: "string \<Rightarrow> string" where
  "unquote s = (if CHR ''%'' \<notin> set s then s else unquote_runs [] s)"

section \<open>pathlib.PurePosixPath\<close>

datatype pure_path = PurePosixPath (root: string) (tail: "string list")

text \<open>\<open>posixpath.splitroot\<close>: exactly two leading slashes are a root of their own.\<close>

definition splitroot :: "string \<Rightarrow> string \<times> string" where
  "splitroot p =
     (if take 1 p = ''/'' then
        (if take 1 (drop 1 p) = ''/'' then
           (if take 1 (drop 2 p) = ''/'' then (''/'', drop 1 p) else (''//'', drop 2 p))
         else (''/'', drop 1 p))
      else ([], p))"

definition parse_path :: "string \<Rightarrow> pure_path" where
  "parse_path s =
     (case splitroot s of
        (r, rel) \<Rightarrow> PurePosixPath r (filter (\<lambda>x. x \<noteq> [] \<and> x \<noteq> ''.'') (split_on CHR ''/'' rel)))"

definition parts :: "pure_path \<Rightarrow> string list" where
  "parts p = (if root p \<noteq> [] then root p # tail p else tail p)"

definition as_posix :: "pure_path \<Rightarrow> string" where
  "as_posix p =
     (if root p \<noteq> [] then root p @ join ''/'' (tail p)
      else if tail p = [] then ''.'' else join ''/'' (tail p))"

definition parent :: "pure_path \<Rightarrow> pure_path" where
  "parent p = (if tail p = [] then p else PurePosixPath (root p) (butlast (tail p)))"

definition truediv :: "pure_path \<Rightarrow> pure_path \<Rightarrow> pure_path" where
  "truediv p q = (if root q \<noteq> [] then q else PurePosixPath (root p) (tail p @ tail q))"

definition name :: "pure_path \<Rightarrow> string" where
  "name p = (if tail p = [] then [] else last (tail p))"

section \<open>Href resolution\<close>

text \<open>
  The loop of \<open>normalize_path\<close> over the parts, \<open>normalized\<close> being the output stack.
\<close>

fun collapse :: "string list \<Rightarrow> string list \<Rightarrow> py_error + string list" where
  "collapse [] normalized = Inr normalized"
| "collapse (part # ps) normalized =
     (if part = ''..'' then
        (if normalized \<noteq> [] then
           (case py_pop normalized of Inl e \<Rightarrow> Inl e | Inr n \<Rightarrow> collapse ps n)
         else collapse ps normalized)
      else if part \<noteq> ''.'' then collapse ps (normalized @ [part])
      else collapse ps normalized)"

text \<open>\<open>normalize_path(base_path, href)\<close> of detect_no_toc.py.\<close>

definition normalize_path :: "string \<Rightarrow> string \<Rightarrow> py_error + string" where
  "normalize_path base_path href =
     (let decoded_href = unquote href in
      if base_path = [] then Inr (as_posix (parse_path decoded_href))
      else
        let resolved = as_posix (truediv (parent (parse_path base_path)) (parse_path decoded_href));
            ps = parts (parse_path resolved)
        in (case collapse ps [] of
              Inl e \<Rightarrow> Inl e
            | Inr normalized_parts \<Rightarrow>
                Inr (if normalized_parts \<noteq> [] then join ''/'' normalized_parts else [])))"

text \<open>\<open>normalize_path(base_path, href, namelist)\<close> of check_copyright_toc.py.\<close>

definition normalize_path_nl :: "string \<Rightarrow> string \<Rightarrow> string set \<Rightarrow> py_error + string" where
  "normalize_path_nl base_path href namelist =
     (let decoded = unquote href in
      if decoded \<in> namelist then Inr decoded
      else if base_path = [] then Inr (as_posix (parse_path decoded))
      else
        let resolved = as_posix (truediv (parent (parse_path base_path)) (parse_path decoded));
            ps = parts (parse_path resolved)
        in (case collapse ps [] of
              Inl e \<Rightarrow> Inl e
            | Inr normalized \<Rightarrow> Inr (if normalized \<noteq> [] then join ''/'' normalized else [])))"

text \<open>\<open>strip_fragment(href)\<close>, the same in both scripts.\<close>

definition strip_fragment :: "string \<Rightarrow> py_error + string" where
  "strip_fragment href = py_index (split_once CHR ''#'' href) 0"

section \<open>Copyright locator (check_copyright_toc.py)\<close>

text \<open>
  \<open>get_spine_xhtml_paths\<close>, \<open>extract_text_from_xhtml\<close>, \<open>score_file\<close> and
  \<open>CONFIDENCE_THRESHOLD\<close> are imported from a module that is not part of the sources, so
  they are parameters: \<open>xhtml_paths\<close> is the list the first returns, \<open>score_of zip_path\<close> is
  \<open>score_file(zip_path, extract_text_from_xhtml(z, zip_path))\<close>, an integer.

  The loop of \<open>find_copyright_path\<close>; the state is
  \<open>(best_index, best_score, second_score)\<close> and \<open>i\<close> is the index \<open>enumerate\<close> gives.
\<close>

fun score_loop ::
  "(string \<Rightarrow> int) \<Rightarrow> nat \<Rightarrow> string list \<Rightarrow> nat option \<times> int \<times> int \<Rightarrow> nat option \<times> int \<times> int"
where
  "score_loop score_of i [] st = st"
| "score_loop score_of i (zip_path # rest) (best_index, best_score, second_score) =
     (let score = score_of zip_path in
      if score > best_score then score_loop score_of (Suc i) rest (Some i, score, best_score)
      else if score > second_score then score_loop score_of (Suc i) rest (best_index, best_score, score)
      else score_loop score_of (Suc i) rest (best_index, best_score, second_score))"

text \<open>Subscripting a list with \<open>best_index\<close>, which is \<open>None\<close> until a score is positive.\<close>

definition subscript :: "'a list \<Rightarrow> nat option \<Rightarrow> py_error + 'a" where
  "subscript xs i = (case i of None \<Rightarrow> Inl TypeError | Some j \<Rightarrow> py_index xs j)"

definition find_copyright_path ::
  "int \<Rightarrow> (string \<Rightarrow> int) \<Rightarrow> string list \<Rightarrow> py_error + string option"
where
  "find_copyright_path CONFIDENCE_THRESHOLD score_of xhtml_paths =
     (if xhtml_paths = [] then Inr None
      else
        (case score_loop score_of 0 xhtml_paths (None, 0, 0) of
           (best_index, best_score, second_score) \<Rightarrow>
             if best_score < CONFIDENCE_THRESHOLD then Inr None
             else if best_score > 0 \<and> second_score > 0
                     \<and> real_of_int best_score < real_of_int second_score * 1.5 then Inr None
             else (case subscript xhtml_paths best_index of
                     Inl e \<Rightarrow> Inl e
                   | Inr p \<Rightarrow> Inr (Some p))))"

text \<open>
  What the specification calls the best and the second-best score: the two largest of the
  scores, counted with repetition, next to the two zeros the loop starts from.
\<close>

definition best_of :: "int list \<Rightarrow> int" where
  "best_of scores = Max (set (0 # scores))"

definition second_of :: "int list \<Rightarrow> int" where
  "second_of scores = Max (set (remove1 (best_of scores) (0 # 0 # scores)))"

section \<open>Properties\<close>

subsection \<open>Href resolution never raises\<close>

lemma py_pop_nonempty: "xs \<noteq> [] \<Longrightarrow> py_pop xs = Inr (butlast xs)"
  by (simp add: py_pop_def)

lemma collapse_total: "\<exists>n. collapse ps st = Inr n"
  by (induction ps arbitrary: st) (simp_all add: py_pop_nonempty)

lemma takeWhile_all: "c \<notin> set s \<Longrightarrow> takeWhile (\<lambda>x. x \<noteq> c) s = s"
  by (induction s) auto

lemma strip_fragment_takeWhile:
  "strip_fragment href = Inr (takeWhile (\<lambda>c. c \<noteq> CHR ''#'') href)"
  by (simp add: strip_fragment_def split_once_def py_index_def takeWhile_all)

lemma normalize_path_total: "\<exists>r. normalize_path base href = Inr r"
proof -
  obtain n where
    "collapse (parts (parse_path (as_posix (truediv (parent (parse_path base))
        (parse_path (unquote href)))))) [] = Inr n"
    using collapse_total by blast
  then show ?thesis by (simp add: normalize_path_def Let_def)
qed

lemma normalize_path_nl_total: "\<exists>r. normalize_path_nl base href nl = Inr r"
proof -
  obtain n where
    "collapse (parts (parse_path (as_posix (truediv (parent (parse_path base))
        (parse_path (unquote href)))))) [] = Inr n"
    using collapse_total by blast
  then show ?thesis by (simp add: normalize_path_nl_def Let_def)
qed

text \<open>
  C9. For every base path and every href, malformed percent escapes and any run of \<open>.\<close>
  and \<open>..\<close> segments included, both \<open>normalize_path\<close> functions and \<open>strip_fragment\<close>
  return a value and never raise; \<open>strip_fragment\<close> returns what stands before the first
  \<open>#\<close>; a \<open>..\<close> met while the output stack is empty leaves it empty.
\<close>

theorem resolution_never_raises:
  "(\<exists>r. normalize_path base href = Inr r)
   \<and> (\<exists>r. normalize_path_nl base href namelist = Inr r)
   \<and> strip_fragment href = Inr (takeWhile (\<lambda>c. c \<noteq> CHR ''#'') href)
   \<and> collapse (''..'' # ps) [] = collapse ps []"
  using normalize_path_total normalize_path_nl_total strip_fragment_takeWhile by simp

theorem resolution_never_raises_witness:
  "normalize_path ''a.xhtml'' ''../../b%zz.xhtml'' = Inr ''b%zz.xhtml''
   \<and> strip_fragment ''content/chapter1.xhtml#top'' = Inr ''content/chapter1.xhtml''"
proof -
  have a: "normalize_path ''a.xhtml'' ''../../b%zz.xhtml'' = Inr ''b%zz.xhtml''"
    by code_simp
  have b: "strip_fragment ''content/chapter1.xhtml#top'' = Inr ''content/chapter1.xhtml''"
    using resolution_never_raises [where href = "''content/chapter1.xhtml#top''"]
    by simp
  show ?thesis using a b by simp
qed

subsection \<open>The exact-match short-circuit\<close>

lemma nl_short_circuit:
  "unquote href \<in> namelist \<Longrightarrow> normalize_path_nl base href namelist = Inr (unquote href)"
  by (simp add: normalize_path_nl_def Let_def)

text \<open>
  C2. The href \<open>OEBPS/ch1.xhtml\<close> is the name of an archive entry. The
  \<open>normalize_path\<close> of check_copyright_toc.py returns it as it is; the one of
  detect_no_toc.py takes no list of names and resolves it against the directory of the
  base, so it returns \<open>OEBPS/OEBPS/ch1.xhtml\<close>.
\<close>

theorem short_circuit_missing_in_detect_no_toc:
  "normalize_path_nl ''OEBPS/nav.xhtml'' ''OEBPS/ch1.xhtml'' {''OEBPS/ch1.xhtml''}
     = Inr ''OEBPS/ch1.xhtml''
   \<and> normalize_path ''OEBPS/nav.xhtml'' ''OEBPS/ch1.xhtml'' = Inr ''OEBPS/OEBPS/ch1.xhtml''"
  by code_simp

subsection \<open>The copyright locator\<close>

lemma max_add_mset: "N \<noteq> {#} \<Longrightarrow> Max (set_mset (add_mset (x::int) N)) = max x (Max (set_mset N))"
  by simp

lemma top2_step:
  fixes b s x :: int
  assumes b: "b = Max (set_mset M)" and s: "s = Max (set_mset (M - {#b#}))" and sz: "2 \<le> size M"
  shows "x > b \<Longrightarrow> x = Max (set_mset (add_mset x M)) \<and> b = Max (set_mset (add_mset x M - {#x#}))"
    and "\<not> x > b \<Longrightarrow> x > s \<Longrightarrow> b = Max (set_mset (add_mset x M)) \<and> x = Max (set_mset (add_mset x M - {#b#}))"
    and "\<not> x > b \<Longrightarrow> \<not> x > s \<Longrightarrow> b = Max (set_mset (add_mset x M)) \<and> s = Max (set_mset (add_mset x M - {#b#}))"
proof -
  have ne: "M \<noteq> {#}" using sz by auto
  then have bin: "b \<in># M" using b Max_in[of "set_mset M"] by simp
  have ne2: "M - {#b#} \<noteq> {#}"
  proof
    assume "M - {#b#} = {#}"
    then have "size (M - {#b#}) = 0" by simp
    then show False using bin sz by (simp add: size_Diff_singleton)
  qed
  have sw: "add_mset x M - {#b#} = add_mset x (M - {#b#})" using bin by simp
  have mx: "Max (set_mset (add_mset x M)) = max x b"
    using max_add_mset[OF ne, of x] b by simp
  have mx2: "Max (set_mset (add_mset x M - {#b#})) = max x s"
    using max_add_mset[OF ne2, of x] s sw by simp
  have own: "add_mset x M - {#x#} = M" by simp
  show "x > b \<Longrightarrow> x = Max (set_mset (add_mset x M)) \<and> b = Max (set_mset (add_mset x M - {#x#}))"
    unfolding mx own using b by (simp add: max_def)
  show "\<not> x > b \<Longrightarrow> x > s \<Longrightarrow> b = Max (set_mset (add_mset x M)) \<and> x = Max (set_mset (add_mset x M - {#b#}))"
    unfolding mx mx2 by (simp add: max_def)
  show "\<not> x > b \<Longrightarrow> \<not> x > s \<Longrightarrow> b = Max (set_mset (add_mset x M)) \<and> s = Max (set_mset (add_mset x M - {#b#}))"
    unfolding mx mx2 by (simp add: max_def)
qed

lemma score_loop_scores:
  assumes "score_loop f i ps (bi, b, s) = (bi', b', s')"
      and "b = Max (set_mset M)" and "s = Max (set_mset (M - {#b#}))" and "2 \<le> size M"
  shows "b' = Max (set_mset (M + mset (map f ps))) \<and> s' = Max (set_mset (M + mset (map f ps) - {#b'#}))"
  using assms
proof (induction ps arbitrary: i bi b s M)
  case Nil
  then show ?case by auto
next
  case (Cons p ps)
  let ?x = "f p"
  let ?M = "add_mset ?x M"
  have sz: "2 \<le> size ?M" using Cons.prems(4) by simp
  have eq: "M + mset (map f (p # ps)) = ?M + mset (map f ps)" by simp
  consider (a) "?x > b" | (b) "\<not> ?x > b" "?x > s" | (c) "\<not> ?x > b" "\<not> ?x > s" by blast
  then show ?case
  proof cases
    case a
    then have run: "score_loop f (Suc i) ps (Some i, ?x, b) = (bi', b', s')"
      using Cons.prems(1) by simp
    from top2_step(1)[OF Cons.prems(2,3,4) a]
    show ?thesis unfolding eq using Cons.IH[OF run _ _ sz] by blast
  next
    case b
    then have run: "score_loop f (Suc i) ps (bi, b, ?x) = (bi', b', s')"
      using Cons.prems(1) by simp
    from top2_step(2)[OF Cons.prems(2,3,4) b]
    show ?thesis unfolding eq using Cons.IH[OF run _ _ sz] by blast
  next
    case c
    then have run: "score_loop f (Suc i) ps (bi, b, s) = (bi', b', s')"
      using Cons.prems(1) by simp
    from top2_step(3)[OF Cons.prems(2,3,4) c]
    show ?thesis unfolding eq using Cons.IH[OF run _ _ sz] by blast
  qed
qed

lemma score_loop_top2:
  assumes "score_loop f 0 ps (None, 0, 0) = (bi', b', s')"
  shows "b' = best_of (map f ps) \<and> s' = second_of (map f ps)"
proof -
  have "b' = Max (set_mset ({#0, 0#} + mset (map f ps))) \<and> s' = Max (set_mset ({#0, 0#} + mset (map f ps) - {#b'#}))"
    by (rule score_loop_scores[OF assms]) simp_all
  moreover have "set_mset ({#0, 0#} + mset (map f ps)) = set (0 # map f ps)" by auto
  moreover have "{#0, 0#} + mset (map f ps) - {#b'#} = mset (remove1 b' (0 # 0 # map f ps))"
    by (simp only: mset_remove1) simp
  ultimately show ?thesis
    unfolding best_of_def second_of_def by (metis set_mset_mset)
qed

end
